theory Spec2Isabelle
  imports Main "HOL-Library.Sublist"
begin

section \<open>Python values used by the bot\<close>

text \<open>
  The bot (\<^verbatim>\<open>main.py\<close>) is a set of asynchronous Telegram handlers. A Python \<^verbatim>\<open>str\<close> is
  modelled as a \<^typ>\<open>string\<close>, one \<^typ>\<open>char\<close> per code point (code points below 256).
  The test \<^verbatim>\<open>a in b\<close> on two strings is \<^const>\<open>sublist\<close>: \<^verbatim>\<open>b\<close> has \<^verbatim>\<open>a\<close> as a contiguous
  part.
\<close>

subsection \<open>\<^verbatim>\<open>str.split(sep)\<close>, \<^verbatim>\<open>str.split()\<close> and \<^verbatim>\<open>str.join\<close>\<close>

text \<open>
  \<^verbatim>\<open>s.split(sep)\<close> scans \<^verbatim>\<open>s\<close> from the left, cuts at each occurrence of \<^verbatim>\<open>sep\<close> and
  resumes after it, so occurrences never overlap. The accumulator holds, reversed, the
  characters read since the last cut. (Python raises \<^verbatim>\<open>ValueError\<close> on an empty
  separator; the bot only passes the literals \<^verbatim>\<open>"/track/"\<close>, \<^verbatim>\<open>"?"\<close> and \<^verbatim>\<open>"-"\<close>.)
\<close>

function split_at :: "'a list \<Rightarrow> 'a list \<Rightarrow> 'a list \<Rightarrow> 'a list list" where
  "split_at sep acc [] = [rev acc]"
| "split_at sep acc (c # cs) =
     (if sep \<noteq> [] \<and> prefix sep (c # cs)
      then rev acc # split_at sep [] (drop (length sep) (c # cs))
      else split_at sep (c # acc) cs)"
  by pat_completeness auto
termination
  by (relation "measure (\<lambda>(sep, acc, s). length s)") (auto simp: neq_Nil_conv)

definition str_split :: "string \<Rightarrow> string \<Rightarrow> string list" where
  "str_split s sep = split_at sep [] s"

text \<open>
  The characters on which \<^verbatim>\<open>str.isspace()\<close> holds, among the code points below 256:
  tab to carriage return (9-13), the separators 28-31, space, NEL (133) and the
  no-break space (160).
\<close>

definition isspace :: "char \<Rightarrow> bool" where
  "isspace c = (let n = (of_char c :: nat) in
     (9 \<le> n \<and> n \<le> 13) \<or> (28 \<le> n \<and> n \<le> 32) \<or> n = 133 \<or> n = 160)"

text \<open>\<^verbatim>\<open>s.split()\<close>: the maximal runs of characters that are not whitespace.\<close>

fun words_from :: "string \<Rightarrow> string \<Rightarrow> string list" where
  "words_from acc [] = (if acc = [] then [] else [rev acc])"
| "words_from acc (c # cs) =
     (if isspace c
      then (if acc = [] then words_from [] cs else rev acc # words_from [] cs)
      else words_from (c # acc) cs)"

definition str_words :: "string \<Rightarrow> string list" where
  "str_words s = words_from [] s"

fun join :: "string \<Rightarrow> string list \<Rightarrow> string" where
  "join sep [] = []"
| "join sep [x] = x"
| "join sep (x # y # ys) = x @ sep @ join sep (y # ys)"

subsection \<open>Decimal rendering of integers in f-strings\<close>

definition digit :: "nat \<Rightarrow> char" where
  "digit d =
     (if d = 0 then CHR ''0'' else if d = 1 then CHR ''1'' else if d = 2 then CHR ''2''
      else if d = 3 then CHR ''3'' else if d = 4 then CHR ''4'' else if d = 5 then CHR ''5''
      else if d = 6 then CHR ''6'' else if d = 7 then CHR ''7'' else if d = 8 then CHR ''8''
      else CHR ''9'')"

fun digits :: "nat \<Rightarrow> string" where
  "digits n = (if n < 10 then [digit n] else digits (n div 10) @ [digit (n mod 10)])"

declare digits.simps [simp del]

text \<open>\<^verbatim>\<open>f"{n}"\<close> for an \<^verbatim>\<open>int\<close>: a minus sign for a negative number, then the digits.\<close>

definition str_of_int :: "int \<Rightarrow> string" where
  "str_of_int n = (if n < 0 then CHR ''-'' # digits (nat (- n)) else digits (nat n))"

text \<open>
  \<^verbatim>\<open>f"{n:02d}"\<close>: as above, filled with zeros after the sign up to a total width of 2.
\<close>

definition format_02d :: "int \<Rightarrow> string" where
  "format_02d n =
     (if n < 0
      then CHR ''-'' # replicate (1 - length (digits (nat (- n)))) CHR ''0'' @ digits (nat (- n))
      else replicate (2 - length (digits (nat n))) CHR ''0'' @ digits (nat n))"

text \<open>
  Line 209 of \<^verbatim>\<open>get_spotify_info\<close>:
  \<^verbatim>\<open>duration = f"{duration_ms//60000}:{(duration_ms//1000)%60:02d}"\<close>.
  Python's \<^verbatim>\<open>//\<close> and \<^verbatim>\<open>%\<close> round towards minus infinity, as \<open>div\<close> and \<open>mod\<close> on
  \<^typ>\<open>int\<close> do.
\<close>

definition duration :: "int \<Rightarrow> string" where
  "duration duration_ms =
     str_of_int (duration_ms div 60000) @ '':'' @ format_02d ((duration_ms div 1000) mod 60)"

subsection \<open>Dynamically typed values and dictionaries\<close>

text \<open>The values the handlers store in the \<^verbatim>\<open>metadata\<close> dictionary and pass around.\<close>

datatype pyval = PNone | PStr string | PInt int

fun truthy :: "pyval \<Rightarrow> bool" where
  "truthy PNone = False"
| "truthy (PStr s) = (s \<noteq> [])"
| "truthy (PInt n) = (n \<noteq> 0)"

text \<open>\<^verbatim>\<open>f"{v}"\<close>, that is \<^verbatim>\<open>str(v)\<close>.\<close>

fun py_str :: "pyval \<Rightarrow> string" where
  "py_str PNone = ''None''"
| "py_str (PStr s) = s"
| "py_str (PInt n) = str_of_int n"

text \<open>
  An exception that \<^verbatim>\<open>except Exception\<close> catches, with the text \<^verbatim>\<open>str(e)\<close> that the
  handlers put into their logs and notices.
\<close>

datatype exn = Exn string

fun str_exn :: "exn \<Rightarrow> string" where
  "str_exn (Exn m) = m"

text \<open>A \<^verbatim>\<open>dict\<close> with string keys, in insertion order.\<close>

type_synonym dict = "(string \<times> pyval) list"

definition dict_has :: "dict \<Rightarrow> string \<Rightarrow> bool" where
  "dict_has d k = (map_of d k \<noteq> None)"

definition dict_get :: "dict \<Rightarrow> string \<Rightarrow> pyval \<Rightarrow> pyval" where
  "dict_get d k dflt = (case map_of d k of Some v \<Rightarrow> v | None \<Rightarrow> dflt)"

definition dict_item :: "dict \<Rightarrow> string \<Rightarrow> exn + pyval" where
  "dict_item d k =
     (case map_of d k of Some v \<Rightarrow> Inr v
      | None \<Rightarrow> Inl (Exn ([CHR 0x27] @ k @ [CHR 0x27])))"

definition py_index :: "'a list \<Rightarrow> nat \<Rightarrow> exn + 'a" where
  "py_index xs i = (if i < length xs then Inr (xs ! i) else Inl (Exn ''list index out of range''))"

section \<open>The collaborators and the state they act on\<close>

subsection \<open>Texts sent to the chat\<close>

text \<open>
  Every text the handlers send, one constructor per literal or f-string of the source
  (several start with an emoji, which is not repeated here):
  \<^item> \<open>Downloading\<close>: \<^verbatim>\<open>"Downloading audio from YouTube..."\<close>
  \<^item> \<open>Downloaded t\<close>: \<^verbatim>\<open>f"Downloaded: {title}"\<close>
  \<^item> \<open>ErrorDownloadingAudio m\<close>: \<^verbatim>\<open>f"Error downloading audio: {str(e)}"\<close>
  \<^item> \<open>FetchingInfo\<close>: \<^verbatim>\<open>"Fetching info from Spotify..."\<close>
  \<^item> \<open>InfoMessage title artists album release_date duration\<close>: the \<^verbatim>\<open>info_message\<close>
    of \<^verbatim>\<open>get_spotify_info\<close>, which ends "Downloading this track with ID3 tags..."
  \<^item> \<open>InvalidTrackUrl\<close>: \<^verbatim>\<open>"Please provide a valid Spotify track URL."\<close>
  \<^item> \<open>ErrorFetchingInfo m\<close>: \<^verbatim>\<open>f"Error fetching Spotify info: {str(e)}"\<close>
  \<^item> \<open>NoMatchingTracks\<close>: \<^verbatim>\<open>"No matching tracks found on YouTube."\<close>
  \<^item> \<open>ErrorDownloadingTrack m\<close>: \<^verbatim>\<open>f"Error downloading track: {str(e)}"\<close>
  \<^item> \<open>ProvideYoutubeUrl\<close>: \<^verbatim>\<open>"Please provide a YouTube URL after the /download command."\<close>
  \<^item> \<open>InvalidYoutubeUrl\<close>: \<^verbatim>\<open>"Please provide a valid YouTube URL."\<close>
  \<^item> \<open>ProvideSpotifyUrl\<close>: \<^verbatim>\<open>"Please provide a Spotify URL after the /spotify command."\<close>
  \<^item> \<open>InvalidSpotifyUrl\<close>: \<^verbatim>\<open>"Please provide a valid Spotify URL."\<close>
  \<^item> \<open>UsageHint\<close>: \<^verbatim>\<open>"Please send a YouTube or Spotify link. Use /help for more information."\<close>
\<close>

datatype notice =
    Downloading
  | Downloaded pyval
  | ErrorDownloadingAudio string
  | FetchingInfo
  | InfoMessage string string string string string
  | InvalidTrackUrl
  | ErrorFetchingInfo string
  | NoMatchingTracks
  | ErrorDownloadingTrack string
  | ProvideYoutubeUrl
  | InvalidYoutubeUrl
  | ProvideSpotifyUrl
  | InvalidSpotifyUrl
  | UsageHint

text \<open>The two texts that announce work under way on a status message.\<close>

fun in_progress :: "notice \<Rightarrow> bool" where
  "in_progress Downloading = True"
| "in_progress FetchingInfo = True"
| "in_progress _ = False"

subsection \<open>Data exchanged with the libraries\<close>

text \<open>The ID3 tag of an audio file (eyed3): a frame is \<open>None\<close> until it is assigned.\<close>

record id3tag =
  tag_title :: "pyval option"
  tag_artist :: "pyval option"
  tag_album :: "pyval option"
  tag_album_artist :: "pyval option"
  tag_recording_date :: "pyval option"
  tag_track_num :: "pyval option"
  tag_front_cover :: "string option"

definition init_tag :: id3tag where
  "init_tag = \<lparr>tag_title = None, tag_artist = None, tag_album = None, tag_album_artist = None,
     tag_recording_date = None, tag_track_num = None, tag_front_cover = None\<rparr>"

text \<open>What \<^verbatim>\<open>eyed3.load\<close> returns when it returns an object: its \<^verbatim>\<open>tag\<close> may be \<^verbatim>\<open>None\<close>.\<close>

record audiofile =
  af_tag :: "id3tag option"

record http_response =
  status_code :: int
  body_bytes :: string

text \<open>
  The dictionary \<^verbatim>\<open>extract_info\<close> of yt-dlp returns: the keys the bot reads (\<^verbatim>\<open>title\<close>,
  \<^verbatim>\<open>entries\<close>, and \<^verbatim>\<open>webpage_url\<close> of an entry; each may be missing), and the files the
  engine has written under the output template when it was asked to download.
\<close>

record entry =
  webpage_url :: "string option"

record extraction =
  info_title :: "pyval option"
  info_entries :: "entry list option"
  written :: "string list"

text \<open>The answer of \<^verbatim>\<open>spotify.track\<close>, with the keys \<^verbatim>\<open>get_spotify_info\<close> reads.\<close>

record album_info =
  album_name :: string
  album_artists :: "string list"
  release_date :: string
  images :: "string list"

record track_info =
  track_name :: string
  track_artists :: "string list"
  track_album :: album_info
  duration_ms :: int
  track_number :: "int option"

subsection \<open>Environment and state\<close>

text \<open>
  The collaborators are parameters: each gives the outcome of one external call, an
  exception or a value. \<open>transport\<close> gives the outcome of the n-th call made to Telegram
  in the run (\<open>None\<close>: the call goes through). An answer of the catalog that lacks a key
  makes \<^verbatim>\<open>get_spotify_info\<close> raise \<^verbatim>\<open>KeyError\<close> inside the same \<^verbatim>\<open>try\<close> as the call
  itself, so it is an exception of \<open>catalog\<close> here. \<open>int_of_str\<close> is the builtin
  \<^verbatim>\<open>int\<close> on a string.
\<close>

record env =
  transport :: "nat \<Rightarrow> exn option"
  engine :: "string option \<Rightarrow> bool \<Rightarrow> exn + extraction"
  catalog :: "string \<Rightarrow> exn + track_info"
  eyed3_load :: "string \<Rightarrow> exn + audiofile option"
  http_get :: "pyval \<Rightarrow> exn + http_response"
  tag_save :: "string \<Rightarrow> exn option"
  int_of_str :: "string \<Rightarrow> exn + int"

text \<open>
  What a run does to the outside, one event per operation: a text message created under
  a handle, a text message edited, a photo sent, an audio attachment sent (each when
  Telegram has accepted the call), and a call of the extraction engine.
\<close>

datatype event =
    NewText nat notice
  | EditText nat notice
  | NewPhoto string notice
  | NewAudio string pyval
  | Extract "string option" bool

text \<open>The notices that tell the outcome of a download.\<close>

fun outcome :: "notice \<Rightarrow> bool" where
  "outcome (Downloaded _) = True"
| "outcome (ErrorDownloadingAudio _) = True"
| "outcome _ = False"

text \<open>An edit of the message \<open>h\<close> that writes an outcome; the sending of an audio.\<close>

fun outcome_edit :: "nat \<Rightarrow> event \<Rightarrow> bool" where
  "outcome_edit h (EditText h' n) = (h' = h \<and> outcome n)"
| "outcome_edit h _ = False"

fun audio_sent :: "event \<Rightarrow> bool" where
  "audio_sent (NewAudio _ _) = True"
| "audio_sent _ = False"

text \<open>
  What a run can change: the files in local storage, the tags saved in them, the text
  messages of the chat (a message's handle is its index; editing replaces its text),
  the photos and audio attachments sent, the calls made to the extraction engine
  (locator and \<^verbatim>\<open>download\<close> flag), the number of calls made to Telegram, the log, and
  the events so far, in their order.
\<close>

record world =
  files :: "string set"
  saved_tags :: "string \<Rightarrow> id3tag option"
  messages :: "notice list"
  photos :: "(string \<times> notice) list"
  audios :: "(string \<times> pyval) list"
  engine_calls :: "(string option \<times> bool) list"
  transport_calls :: nat
  error_log :: "string list"
  history :: "event list"

subsection \<open>Computations that change the state and may raise\<close>

type_synonym 'a io = "world \<Rightarrow> (exn + 'a) \<times> world"

definition io_return :: "'a \<Rightarrow> 'a io" where
  "io_return x w = (Inr x, w)"

definition io_raise :: "exn \<Rightarrow> 'a io" where
  "io_raise e w = (Inl e, w)"

definition io_lift :: "exn + 'a \<Rightarrow> 'a io" where
  "io_lift r w = (r, w)"

definition io_bind :: "'a io \<Rightarrow> ('a \<Rightarrow> 'b io) \<Rightarrow> 'b io" where
  "io_bind m f w = (case m w of (Inl e, w') \<Rightarrow> (Inl e, w') | (Inr x, w') \<Rightarrow> f x w')"

text \<open>\<^verbatim>\<open>try: m except Exception as e: h\<close>\<close>

definition io_try :: "'a io \<Rightarrow> (exn \<Rightarrow> 'a io) \<Rightarrow> 'a io" where
  "io_try m h w = (case m w of (Inl e, w') \<Rightarrow> h e w' | (Inr x, w') \<Rightarrow> (Inr x, w'))"

subsection \<open>The external calls\<close>

text \<open>\<^verbatim>\<open>update.message.reply_text(n)\<close>: a new message; the result is its handle.\<close>

definition reply_text :: "env \<Rightarrow> notice \<Rightarrow> nat io" where
  "reply_text E n w =
     (case transport E (transport_calls w) of
        Some e \<Rightarrow> (Inl e, w\<lparr>transport_calls := Suc (transport_calls w)\<rparr>)
      | None \<Rightarrow> (Inr (length (messages w)),
          w\<lparr>transport_calls := Suc (transport_calls w), messages := messages w @ [n],
            history := history w @ [NewText (length (messages w)) n]\<rparr>))"

text \<open>\<^verbatim>\<open>status_message.edit_text(n)\<close>: the message keeps its place and gets a new text.\<close>

definition edit_text :: "env \<Rightarrow> nat \<Rightarrow> notice \<Rightarrow> unit io" where
  "edit_text E h n w =
     (case transport E (transport_calls w) of
        Some e \<Rightarrow> (Inl e, w\<lparr>transport_calls := Suc (transport_calls w)\<rparr>)
      | None \<Rightarrow> (Inr (),
          w\<lparr>transport_calls := Suc (transport_calls w), messages := (messages w)[h := n],
            history := history w @ [EditText h n]\<rparr>))"

definition reply_photo :: "env \<Rightarrow> string \<Rightarrow> notice \<Rightarrow> unit io" where
  "reply_photo E url caption w =
     (case transport E (transport_calls w) of
        Some e \<Rightarrow> (Inl e, w\<lparr>transport_calls := Suc (transport_calls w)\<rparr>)
      | None \<Rightarrow> (Inr (),
          w\<lparr>transport_calls := Suc (transport_calls w), photos := photos w @ [(url, caption)],
            history := history w @ [NewPhoto url caption]\<rparr>))"

text \<open>
  \<^verbatim>\<open>with open(file_path, 'rb') as audio: await update.message.reply_audio(audio, title=title)\<close>:
  opening a file that is not there raises \<^verbatim>\<open>FileNotFoundError\<close> before anything is sent
  (its text is abridged here, as is that of \<^verbatim>\<open>os.remove\<close>).
\<close>

definition reply_audio :: "env \<Rightarrow> string \<Rightarrow> pyval \<Rightarrow> unit io" where
  "reply_audio E file_path title w =
     (if file_path \<notin> files w then (Inl (Exn ''No such file or directory''), w)
      else case transport E (transport_calls w) of
        Some e \<Rightarrow> (Inl e, w\<lparr>transport_calls := Suc (transport_calls w)\<rparr>)
      | None \<Rightarrow> (Inr (),
          w\<lparr>transport_calls := Suc (transport_calls w), audios := audios w @ [(file_path, title)],
            history := history w @ [NewAudio file_path title]\<rparr>))"

definition os_remove :: "string \<Rightarrow> unit io" where
  "os_remove file_path w =
     (if file_path \<notin> files w then (Inl (Exn ''No such file or directory''), w)
      else (Inr (), w\<lparr>files := files w - {file_path}\<rparr>))"

definition logger_error :: "string \<Rightarrow> unit io" where
  "logger_error m w = (Inr (), w\<lparr>error_log := error_log w @ [m]\<rparr>)"

text \<open>
  \<^verbatim>\<open>ydl.extract_info(locator, download=flag)\<close>: the call is recorded; when it succeeds with
  \<^verbatim>\<open>download=True\<close> the files the engine wrote are in local storage.
\<close>

definition extract_info :: "env \<Rightarrow> string option \<Rightarrow> bool \<Rightarrow> extraction io" where
  "extract_info E locator download w =
     (let w1 = w\<lparr>engine_calls := engine_calls w @ [(locator, download)],
                history := history w @ [Extract locator download]\<rparr>
      in case engine E locator download of
           Inl e \<Rightarrow> (Inl e, w1)
         | Inr info \<Rightarrow>
             (Inr info, if download then w1\<lparr>files := files w1 \<union> set (written info)\<rparr> else w1))"

definition tag_save_io :: "env \<Rightarrow> string \<Rightarrow> id3tag \<Rightarrow> unit io" where
  "tag_save_io E file_path tag w =
     (case tag_save E file_path of
        Some e \<Rightarrow> (Inl e, w)
      | None \<Rightarrow> (Inr (), w\<lparr>saved_tags := (saved_tags w)(file_path \<mapsto> tag)\<rparr>))"

section \<open>The handlers\<close>

definition DOWNLOAD_DIR :: string where
  "DOWNLOAD_DIR = ''downloads''"

subsection \<open>\<^verbatim>\<open>add_id3_tags\<close>\<close>

text \<open>
  Lines 164-173: the text frames, the year and the track number, from the dictionary.
\<close>

definition set_basic_tags :: "id3tag \<Rightarrow> dict \<Rightarrow> id3tag" where
  "set_basic_tags tag metadata =
     (let t1 = tag\<lparr>tag_title := Some (dict_get metadata ''title'' (PStr ''Unknown Title''))\<rparr>;
          t2 = t1\<lparr>tag_artist := Some (dict_get metadata ''artist'' (PStr ''Unknown Artist''))\<rparr>;
          t3 = t2\<lparr>tag_album := Some (dict_get metadata ''album'' (PStr ''Unknown Album''))\<rparr>;
          t4 = t3\<lparr>tag_album_artist := Some (dict_get metadata ''album_artist''
                  (dict_get metadata ''artist'' (PStr ''Unknown Artist'')))\<rparr>;
          t5 = (if dict_has metadata ''year''
                then t4\<lparr>tag_recording_date := Some (dict_get metadata ''year'' PNone)\<rparr> else t4);
          t6 = (if dict_has metadata ''track_number''
                then t5\<lparr>tag_track_num := Some (dict_get metadata ''track_number'' PNone)\<rparr> else t5)
      in t6)"

text \<open>
  Lines 176-180: the cover is fetched when the dictionary has a true \<^verbatim>\<open>cover_url\<close>, and
  set when the answer has status 200.
\<close>

definition add_cover :: "env \<Rightarrow> id3tag \<Rightarrow> dict \<Rightarrow> id3tag io" where
  "add_cover E tag metadata =
     (if dict_has metadata ''cover_url'' \<and> truthy (dict_get metadata ''cover_url'' PNone)
      then io_bind (io_lift (http_get E (dict_get metadata ''cover_url'' PNone))) (\<lambda>response.
             if status_code response = 200
             then io_return (tag\<lparr>tag_front_cover := Some (body_bytes response)\<rparr>)
             else io_return tag)
      else io_return tag)"

text \<open>
  The body of the \<^verbatim>\<open>try\<close> (lines 157-183). When \<^verbatim>\<open>eyed3.load\<close> returns \<^verbatim>\<open>None\<close>, reading
  \<^verbatim>\<open>audiofile.tag\<close> raises \<^verbatim>\<open>AttributeError\<close> (its text is written without quotes).
\<close>

definition tag_file :: "env \<Rightarrow> string \<Rightarrow> dict \<Rightarrow> unit io" where
  "tag_file E file_path metadata =
     io_bind (io_lift (eyed3_load E file_path)) (\<lambda>audiofile.
       case audiofile of
         None \<Rightarrow> io_raise (Exn ''NoneType object has no attribute tag'')
       | Some af \<Rightarrow>
           (let tag = (case af_tag af of None \<Rightarrow> init_tag | Some t \<Rightarrow> t)
            in io_bind (add_cover E (set_basic_tags tag metadata) metadata) (\<lambda>tag'.
                 tag_save_io E file_path tag')))"

definition add_id3_tags :: "env \<Rightarrow> string \<Rightarrow> dict \<Rightarrow> unit io" where
  "add_id3_tags E file_path metadata =
     io_try (tag_file E file_path metadata)
       (\<lambda>e. logger_error (''Error adding ID3 tags: '' @ str_exn e))"

subsection \<open>\<^verbatim>\<open>download_from_youtube\<close>\<close>

text \<open>Line 135: \<^verbatim>\<open>file_path = f"{DOWNLOAD_DIR}/{title}.mp3"\<close>.\<close>

definition artifact_path :: "pyval \<Rightarrow> string" where
  "artifact_path title = DOWNLOAD_DIR @ ''/'' @ py_str title @ ''.mp3''"

text \<open>
  Lines 138-140: \<^verbatim>\<open>if metadata:\<close> holds for a dictionary that is not empty; the result is
  the title used from there on.
\<close>

definition tag_step :: "env \<Rightarrow> string \<Rightarrow> pyval \<Rightarrow> dict option \<Rightarrow> pyval io" where
  "tag_step E file_path title metadata =
     (case metadata of
        None \<Rightarrow> io_return title
      | Some md \<Rightarrow>
          if md = [] then io_return title
          else io_bind (add_id3_tags E file_path md) (\<lambda>_. io_lift (dict_item md ''title'')))"

text \<open>
  The status message is created before the \<^verbatim>\<open>try\<close> (line 116); the \<^verbatim>\<open>try\<close> covers lines
  119-148 and its handler lines 151-152.
\<close>

definition download_from_youtube :: "env \<Rightarrow> string option \<Rightarrow> dict option \<Rightarrow> unit io" where
  "download_from_youtube E url metadata =
     io_bind (reply_text E Downloading) (\<lambda>status_message.
       io_try
         (io_bind (extract_info E url True) (\<lambda>info.
            let title = (case info_title info of Some t \<Rightarrow> t | None \<Rightarrow> PStr ''Unknown Title'');
                file_path = artifact_path title
            in io_bind (tag_step E file_path title metadata) (\<lambda>title.
               io_bind (edit_text E status_message (Downloaded title)) (\<lambda>_.
               io_bind (reply_audio E file_path title) (\<lambda>_.
               os_remove file_path)))))
         (\<lambda>e. io_bind (logger_error (''Error downloading from YouTube: '' @ str_exn e)) (\<lambda>_.
               edit_text E status_message (ErrorDownloadingAudio (str_exn e)))))"

subsection \<open>\<^verbatim>\<open>search_and_download_from_youtube\<close>\<close>

definition search_and_download_from_youtube :: "env \<Rightarrow> string \<Rightarrow> dict option \<Rightarrow> unit io" where
  "search_and_download_from_youtube E query metadata =
     io_try
       (io_bind (extract_info E (Some (''ytsearch:'' @ query)) False) (\<lambda>info.
          let entries = (case info_entries info of Some es \<Rightarrow> es | None \<Rightarrow> [])
          in case entries of
               [] \<Rightarrow> io_bind (reply_text E NoMatchingTracks) (\<lambda>_. io_return ())
             | video_info # _ \<Rightarrow> download_from_youtube E (webpage_url video_info) metadata))
       (\<lambda>e. io_bind (logger_error (''Error searching/downloading from YouTube: '' @ str_exn e)) (\<lambda>_.
             io_bind (reply_text E (ErrorDownloadingTrack (str_exn e))) (\<lambda>_. io_return ())))"

subsection \<open>\<^verbatim>\<open>get_spotify_info\<close>\<close>

text \<open>Line 196: \<^verbatim>\<open>url.split("/track/")[1].split("?")[0]\<close>.\<close>

definition track_id_of :: "string \<Rightarrow> exn + string" where
  "track_id_of url =
     (case py_index (str_split url ''/track/'') 1 of
        Inl e \<Rightarrow> Inl e
      | Inr rest \<Rightarrow> py_index (str_split rest ''?'') 0)"

text \<open>
  Line 218: \<^verbatim>\<open>int(release_date.split("-")[0]) if "-" in release_date else None\<close>.
\<close>

definition year_of :: "env \<Rightarrow> string \<Rightarrow> exn + int option" where
  "year_of E date =
     (if sublist ''-'' date
      then (case py_index (str_split date ''-'') 0 of
              Inl e \<Rightarrow> Inl e
            | Inr y \<Rightarrow> (case int_of_str E y of Inl e \<Rightarrow> Inl e | Inr n \<Rightarrow> Inr (Some n)))
      else Inr None)"

text \<open>Lines 221-231: the dictionary handed on, with \<^verbatim>\<open>year\<close> only when it is true.\<close>

definition make_metadata ::
  "string \<Rightarrow> string \<Rightarrow> string \<Rightarrow> string \<Rightarrow> string option \<Rightarrow> int \<Rightarrow> int option \<Rightarrow> dict" where
  "make_metadata title artist_names album album_artist image_url track_num year =
     [(''title'', PStr title), (''artist'', PStr artist_names), (''album'', PStr album),
      (''album_artist'', PStr album_artist),
      (''cover_url'', case image_url of Some u \<Rightarrow> PStr u | None \<Rightarrow> PNone),
      (''track_number'', PInt track_num)]
     @ (case year of Some y \<Rightarrow> (if y \<noteq> 0 then [(''year'', PInt y)] else []) | None \<Rightarrow> [])"

definition get_spotify_info :: "env \<Rightarrow> string \<Rightarrow> unit io" where
  "get_spotify_info E url =
     io_bind (reply_text E FetchingInfo) (\<lambda>status_message.
       io_try
         (if sublist ''/track/'' url
          then io_bind (io_lift (track_id_of url)) (\<lambda>track_id.
               io_bind (io_lift (catalog E track_id)) (\<lambda>info.
                 let title = track_name info;
                     artist_names = join '', '' (track_artists info);
                     album = album_name (track_album info);
                     album_artist = join '', '' (album_artists (track_album info));
                     date = release_date (track_album info);
                     image_url = (case images (track_album info) of [] \<Rightarrow> None | u # _ \<Rightarrow> Some u);
                     track_num = (case track_number info of Some n \<Rightarrow> n | None \<Rightarrow> 1)
                 in io_bind (io_lift (year_of E date)) (\<lambda>year.
                      let metadata = make_metadata title artist_names album album_artist
                                       image_url track_num year;
                          info_message = InfoMessage title artist_names album date
                                           (duration (duration_ms info))
                      in io_bind
                           (case image_url of
                              Some u \<Rightarrow> if u \<noteq> [] then reply_photo E u info_message
                                        else edit_text E status_message info_message
                            | None \<Rightarrow> edit_text E status_message info_message) (\<lambda>_.
                         search_and_download_from_youtube E
                           (title @ '' '' @ artist_names @ '' audio'') (Some metadata)))))
          else edit_text E status_message InvalidTrackUrl)
         (\<lambda>e. io_bind (logger_error (''Error getting Spotify info: '' @ str_exn e)) (\<lambda>_.
               edit_text E status_message (ErrorFetchingInfo (str_exn e)))))"

subsection \<open>The commands and the message handler\<close>

definition is_video_link :: "string \<Rightarrow> bool" where
  "is_video_link s = (sublist ''youtube.com'' s \<or> sublist ''youtu.be'' s)"

definition is_track_link :: "string \<Rightarrow> bool" where
  "is_track_link s = sublist ''spotify.com/track'' s"

text \<open>\<^verbatim>\<open>context.args\<close> is the list of words after the command.\<close>

definition download_command :: "env \<Rightarrow> string list \<Rightarrow> unit io" where
  "download_command E args =
     (case args of
        [] \<Rightarrow> io_bind (reply_text E ProvideYoutubeUrl) (\<lambda>_. io_return ())
      | url # _ \<Rightarrow>
          if is_video_link url then download_from_youtube E (Some url) None
          else io_bind (reply_text E InvalidYoutubeUrl) (\<lambda>_. io_return ()))"

definition spotify_command :: "env \<Rightarrow> string list \<Rightarrow> unit io" where
  "spotify_command E args =
     (case args of
        [] \<Rightarrow> io_bind (reply_text E ProvideSpotifyUrl) (\<lambda>_. io_return ())
      | url # _ \<Rightarrow>
          if sublist ''spotify.com'' url then get_spotify_info E url
          else io_bind (reply_text E InvalidSpotifyUrl) (\<lambda>_. io_return ()))"

text \<open>
  The loops of \<^verbatim>\<open>handle_message\<close> return at the first word that passes the test
  (\<^const>\<open>find\<close>); a loop that ends without one falls out of the function with no reply.
\<close>

definition handle_message :: "env \<Rightarrow> string \<Rightarrow> unit io" where
  "handle_message E text =
     (if is_video_link text
      then (case find is_video_link (str_words text) of
              Some word \<Rightarrow> download_from_youtube E (Some word) None
            | None \<Rightarrow> io_return ())
      else if is_track_link text
      then (case find is_track_link (str_words text) of
              Some word \<Rightarrow> get_spotify_info E word
            | None \<Rightarrow> io_return ())
      else io_bind (reply_text E UsageHint) (\<lambda>_. io_return ()))"

section \<open>Scenarios\<close>

text \<open>
  Concrete collaborators and states, on which the handlers are run below. In \<open>base_env\<close>
  Telegram accepts every call, the engine answers every request with the one track
  \<open>song\<close>, the catalog knows no track, files load without a tag, and no cover can be
  fetched.
\<close>

definition w0 :: world where
  "w0 = \<lparr>files = {}, saved_tags = (\<lambda>_. None), messages = [], photos = [], audios = [],
     engine_calls = [], transport_calls = 0, error_log = [], history = []\<rparr>"

definition song :: extraction where
  "song = \<lparr>info_title = Some (PStr ''Song''), info_entries = None,
     written = [''downloads/Song.mp3'']\<rparr>"

definition base_env :: env where
  "base_env = \<lparr>transport = (\<lambda>_. None), engine = (\<lambda>_ _. Inr song),
     catalog = (\<lambda>_. Inl (Exn ''not found'')),
     eyed3_load = (\<lambda>_. Inr (Some \<lparr>af_tag = None\<rparr>)),
     http_get = (\<lambda>_. Inl (Exn ''unreachable'')),
     tag_save = (\<lambda>_. None),
     int_of_str = (\<lambda>_. Inl (Exn ''invalid literal''))\<rparr>"

text \<open>
  As \<open>base_env\<close>, but the third call to Telegram in the run fails: in
  \<^const>\<open>download_from_youtube\<close> that is the sending of the audio attachment.
\<close>

definition send_fails_env :: env where
  "send_fails_env =
     base_env\<lparr>transport := (\<lambda>n. if n = 2 then Some (Exn ''timed out'') else None)\<rparr>"

text \<open>
  A catalog that knows one track with a cover image, and an engine whose search finds
  one video and whose download produces \<open>song\<close>.
\<close>

definition track0 :: track_info where
  "track0 = \<lparr>track_name = ''T'', track_artists = [''A'', ''B''],
     track_album = \<lparr>album_name = ''L'', album_artists = [''A''],
       release_date = ''2021-05-14'', images = [''http://i/c.jpg'']\<rparr>,
     duration_ms = 185000, track_number = Some 1\<rparr>"

definition found :: extraction where
  "found = \<lparr>info_title = None,
     info_entries = Some [\<lparr>webpage_url = Some ''https://youtu.be/x''\<rparr>], written = []\<rparr>"

definition catalog_env :: env where
  "catalog_env =
     base_env\<lparr>catalog := (\<lambda>_. Inr track0),
       engine := (\<lambda>_ download. if download then Inr song else Inr found),
       int_of_str := (\<lambda>s. if s = ''2021'' then Inr 2021 else Inl (Exn ''invalid literal''))\<rparr>"

text \<open>As \<open>base_env\<close>, but the engine's search finds nothing.\<close>

definition nothing_found_env :: env where
  "nothing_found_env =
     base_env\<lparr>engine := (\<lambda>_ _. Inr \<lparr>info_title = None, info_entries = Some [], written = []\<rparr>)\<rparr>"

text \<open>As \<open>base_env\<close>, but Telegram refuses every call.\<close>

definition refusing_env :: env where
  "refusing_env = base_env\<lparr>transport := (\<lambda>_. Some (Exn ''unavailable''))\<rparr>"

lemmas io_defs = io_return_def io_raise_def io_lift_def io_bind_def io_try_def
  reply_text_def edit_text_def reply_photo_def reply_audio_def os_remove_def logger_error_def
  extract_info_def tag_save_io_def Let_def

lemmas handler_defs = download_from_youtube_def tag_step_def add_id3_tags_def tag_file_def
  add_cover_def set_basic_tags_def artifact_path_def DOWNLOAD_DIR_def
  dict_get_def dict_has_def dict_item_def

section \<open>Splitting strings\<close>

lemma split_at_skip:
  "\<forall>i<length xs. \<not> prefix sep (drop i xs @ rest) \<Longrightarrow>
   split_at sep acc (xs @ rest) = split_at sep (rev xs @ acc) rest"
proof (induction xs arbitrary: acc)
  case Nil
  then show ?case by simp
next
  case (Cons x xs)
  from Cons.prems have here: "\<not> prefix sep (x # xs @ rest)"
    by force
  have later: "\<forall>i<length xs. \<not> prefix sep (drop i xs @ rest)"
  proof (intro allI impI)
    fix i assume "i < length xs"
    then have "Suc i < length (x # xs)" by simp
    with Cons.prems have "\<not> prefix sep (drop (Suc i) (x # xs) @ rest)" by blast
    then show "\<not> prefix sep (drop i xs @ rest)" by simp
  qed
  show ?case using here Cons.IH [OF later, of "x # acc"] by simp
qed

lemma split_at_hit:
  "sep \<noteq> [] \<Longrightarrow> split_at sep acc (sep @ rest) = rev acc # split_at sep [] rest"
  by (cases sep) simp_all

lemma split_at_head: "\<exists>s' tl. split_at sep acc s = (rev acc @ s') # tl"
proof (induction s arbitrary: acc)
  case Nil
  then show ?case by simp
next
  case (Cons c cs)
  show ?case
  proof (cases "sep \<noteq> [] \<and> prefix sep (c # cs)")
    case True
    then show ?thesis by simp
  next
    case False
    from Cons.IH [of "c # acc"] obtain s' tl where "split_at sep (c # acc) cs = (rev (c # acc) @ s') # tl"
      by blast
    with False show ?thesis by simp
  qed
qed

lemma prefix_past_foreign:
  assumes "prefix t (d @ c # r)" "c \<notin> set t"
  shows "prefix t d"
proof -
  from assms(1) consider "prefix t d" | us where "t = d @ us" "prefix us (c # r)"
    by (auto simp: prefix_append)
  then show ?thesis
  proof cases
    case 1 then show ?thesis .
  next
    case 2
    show ?thesis
    proof (cases us)
      case Nil with 2 show ?thesis by simp
    next
      case (Cons u us')
      with 2 have "u = c" by simp
      with 2 Cons assms(2) show ?thesis by simp
    qed
  qed
qed

lemma no_hit_inside:
  assumes "\<not> sublist t xs" "c \<notin> set t"
  shows "\<forall>i<length xs. \<not> prefix t (drop i xs @ c # r)"
proof (intro allI impI notI)
  fix i assume "i < length xs" and hit: "prefix t (drop i xs @ c # r)"
  have "prefix t (drop i xs)" by (rule prefix_past_foreign [OF hit assms(2)])
  then obtain zs where "drop i xs = t @ zs" by (auto simp: prefix_def)
  then have "xs = take i xs @ t @ zs" by (metis append_take_drop_id)
  then have "sublist t xs" unfolding sublist_def by blast
  with assms(1) show False by simp
qed

lemma prefix_Cons_append:
  "prefix (a # t) (d @ s) \<longleftrightarrow>
     (d = [] \<and> prefix (a # t) s) \<or> (\<exists>d'. d = a # d' \<and> prefix t (d' @ s))"
  by (cases d) auto

lemma track_marker_overlap:
  assumes "prefix ''/track/'' (d @ ''/track/'' @ r)"
  shows "prefix ''/track/'' d \<or> d = ''/track'' \<or> d = []"
  using assms by (auto simp: prefix_Cons_append)


lemma no_hit_in_base:
  assumes "\<not> sublist ''/track/'' base" "\<not> suffix ''/track'' base"
  shows "\<forall>i<length base. \<not> prefix ''/track/'' (drop i base @ ''/track/'' @ r)"
proof (intro allI impI notI)
  fix i assume i: "i < length base" and hit: "prefix ''/track/'' (drop i base @ ''/track/'' @ r)"
  from i have "drop i base \<noteq> []" by simp
  with track_marker_overlap [OF hit]
  consider "prefix ''/track/'' (drop i base)" | "drop i base = ''/track''" by blast
  then show False
  proof cases
    case 1
    then obtain zs where "drop i base = ''/track/'' @ zs" by (auto simp: prefix_def)
    then have "base = take i base @ ''/track/'' @ zs" by (metis append_take_drop_id)
    then have "sublist ''/track/'' base" unfolding sublist_def by blast
    with assms(1) show False by simp
  next
    case 2
    then have "base = take i base @ ''/track''" by (metis append_take_drop_id)
    then have "suffix ''/track'' base" unfolding suffix_def by blast
    with assms(2) show False by simp
  qed
qed

lemma split_at_none:
  assumes "\<forall>i<length xs. \<not> prefix sep (drop i xs)"
  shows "split_at sep [] xs = [xs]"
proof -
  from assms have "\<forall>i<length xs. \<not> prefix sep (drop i xs @ [])" by simp
  from split_at_skip [OF this, of "[]"] show ?thesis by simp
qed

lemma no_sublist_no_hit:
  assumes "\<not> sublist t xs"
  shows "\<forall>i<length xs. \<not> prefix t (drop i xs)"
proof (intro allI impI notI)
  fix i assume "i < length xs" "prefix t (drop i xs)"
  then obtain zs where "drop i xs = t @ zs" by (auto simp: prefix_def)
  then have "xs = take i xs @ t @ zs" by (metis append_take_drop_id)
  then have "sublist t xs" unfolding sublist_def by blast
  with assms show False by simp
qed

lemma sublist_single: "sublist [c] xs \<longleftrightarrow> c \<in> set xs"
  by (induction xs) (auto simp: sublist_Cons_right)

section \<open>Track identifier extraction\<close>

text \<open>
  Claim C7, as amended. For every \<open>base\<close> that neither contains \<^verbatim>\<open>"/track/"\<close> nor ends
  with \<^verbatim>\<open>"/track"\<close>, every identifier that contains neither \<^verbatim>\<open>"/track/"\<close> nor \<^verbatim>\<open>"?"\<close>,
  and every text \<open>extra\<close>: the URL \<^verbatim>\<open>base + "/track/" + id + "?" + extra\<close> passes the test
  of line 195 and the expression of line 196 returns exactly the identifier. The
  extraction is not idempotent: applied to the identifier it has just returned, the
  expression raises \<^verbatim>\<open>IndexError\<close>, since the identifier has no \<^verbatim>\<open>"/track/"\<close>.
\<close>

theorem track_id_round_trip:
  assumes base1: "\<not> sublist ''/track/'' base"
      and base2: "\<not> suffix ''/track'' base"
      and id1: "\<not> sublist ''/track/'' ident"
      and id2: "\<not> sublist ''?'' ident"
  shows "sublist ''/track/'' (base @ ''/track/'' @ ident @ ''?'' @ extra)
       \<and> track_id_of (base @ ''/track/'' @ ident @ ''?'' @ extra) = Inr ident
       \<and> track_id_of ident = Inl (Exn ''list index out of range'')"
proof -
  let ?T = "''/track/''"
  have q: "CHR ''?'' \<notin> set ident" using id2 by (simp add: sublist_single)
  have "split_at ?T [] (base @ ?T @ ident @ ''?'' @ extra)
          = split_at ?T (rev base @ []) (?T @ ident @ ''?'' @ extra)"
    by (rule split_at_skip) (rule no_hit_in_base [OF base1 base2])
  also have "\<dots> = base # split_at ?T [] (ident @ ''?'' @ extra)"
    using split_at_hit [of ?T "rev base" "ident @ ''?'' @ extra"] by simp
  finally have first: "split_at ?T [] (base @ ?T @ ident @ ''?'' @ extra)
          = base # split_at ?T [] (ident @ ''?'' @ extra)" .
  have inside: "\<forall>i<length ident. \<not> prefix ?T (drop i ident @ CHR ''?'' # extra)"
    by (rule no_hit_inside [OF id1]) simp
  have at_q: "\<not> prefix ?T (CHR ''?'' # extra)" by simp
  have "split_at ?T [] (ident @ CHR ''?'' # extra) = split_at ?T (rev ident @ []) (CHR ''?'' # extra)"
    by (rule split_at_skip) (rule inside)
  also have "\<dots> = split_at ?T (CHR ''?'' # rev ident) extra"
    using at_q by simp
  finally have "split_at ?T [] (ident @ ''?'' @ extra) = split_at ?T (CHR ''?'' # rev ident) extra"
    by simp
  moreover obtain s' tl where "split_at ?T (CHR ''?'' # rev ident) extra = (rev (CHR ''?'' # rev ident) @ s') # tl"
    using split_at_head by blast
  ultimately have second: "split_at ?T [] (ident @ ''?'' @ extra) = (ident @ ''?'' @ s') # tl"
    by simp
  have rest: "py_index (str_split (base @ ?T @ ident @ ''?'' @ extra) ?T) 1 = Inr (ident @ ''?'' @ s')"
    unfolding str_split_def py_index_def first second by simp
  have noq: "\<forall>i<length ident. \<not> prefix ''?'' (drop i ident @ ''?'' @ s')"
  proof (intro allI impI notI)
    fix i assume i: "i < length ident" and "prefix ''?'' (drop i ident @ ''?'' @ s')"
    then have "hd (drop i ident) = CHR ''?''" by (cases "drop i ident") auto
    moreover from i have "hd (drop i ident) \<in> set ident"
      by (simp add: hd_drop_conv_nth)
    ultimately show False using q by simp
  qed
  have "split_at ''?'' [] (ident @ ''?'' @ s') = split_at ''?'' (rev ident @ []) (''?'' @ s')"
    by (rule split_at_skip) (rule noq)
  also have "\<dots> = ident # split_at ''?'' [] s'"
    using split_at_hit [of "''?''" "rev ident" s'] by simp
  finally have third: "split_at ''?'' [] (ident @ ''?'' @ s') = ident # split_at ''?'' [] s'" .
  have result: "track_id_of (base @ ?T @ ident @ ''?'' @ extra) = Inr ident"
    unfolding track_id_of_def rest using third by (simp add: str_split_def py_index_def)
  have guard: "sublist ?T (base @ ?T @ ident @ ''?'' @ extra)"
    by (rule sublist_appendI)
  have "split_at ?T [] ident = [ident]"
    by (rule split_at_none) (rule no_sublist_no_hit [OF id1])
  then have again: "track_id_of ident = Inl (Exn ''list index out of range'')"
    by (simp add: track_id_of_def str_split_def py_index_def)
  from guard result again show ?thesis by blast
qed

text \<open>
  Witness for C7: the base \<^verbatim>\<open>open.spotify.com\<close> and the identifier \<^verbatim>\<open>4uLU6hMC\<close> satisfy
  the four hypotheses, and the identifier comes back.
\<close>

theorem track_id_round_trip_witness:
  "\<not> sublist ''/track/'' ''open.spotify.com''
   \<and> \<not> suffix ''/track'' ''open.spotify.com''
   \<and> \<not> sublist ''/track/'' ''4uLU6hMC''
   \<and> \<not> sublist ''?'' ''4uLU6hMC''
   \<and> track_id_of (''open.spotify.com'' @ ''/track/'' @ ''4uLU6hMC'' @ ''?'' @ ''si=1'') = Inr ''4uLU6hMC''
   \<and> track_id_of ''4uLU6hMC'' = Inl (Exn ''list index out of range'')"
proof -
  have h1: "\<not> sublist ''/track/'' ''open.spotify.com''" by (simp add: sublist_code)
  have h2: "\<not> suffix ''/track'' ''open.spotify.com''" by (simp add: suffix_to_prefix)
  have h3: "\<not> sublist ''/track/'' ''4uLU6hMC''" by (simp add: sublist_code)
  have h4: "\<not> sublist ''?'' ''4uLU6hMC''" by (simp add: sublist_code)
  from track_id_round_trip [OF h1 h2 h3 h4, of "''si=1''"] h1 h2 h3 h4 show ?thesis by blast
qed

text \<open>
  Counterexample to C7 as stated: the base \<^verbatim>\<open>x.com/track\<close> does not contain
  \<^verbatim>\<open>"/track/"\<close>, but its end and the first character of the marker form an earlier
  occurrence of \<^verbatim>\<open>"/track/"\<close> in the URL \<^verbatim>\<open>x.com/track/track/abc?si=1\<close>, and the
  extraction returns \<^verbatim>\<open>track/abc\<close> instead of \<^verbatim>\<open>abc\<close>.
\<close>

theorem track_id_overlap_counterexample:
  "\<not> sublist ''/track/'' ''x.com/track''
   \<and> \<not> sublist ''/track/'' ''abc''
   \<and> \<not> sublist ''?'' ''abc''
   \<and> track_id_of (''x.com/track'' @ ''/track/'' @ ''abc'' @ ''?'' @ ''si=1'') = Inr ''track/abc''
   \<and> track_id_of (''x.com/track'' @ ''/track/'' @ ''abc'' @ ''?'' @ ''si=1'') \<noteq> Inr ''abc''"
  by (simp add: sublist_code track_id_of_def str_split_def py_index_def)

section \<open>Duration display\<close>

lemma digits_lt10: "n < 10 \<Longrightarrow> digits n = [digit n]"
  by (simp add: digits.simps)

lemma digits_lt100:
  "10 \<le> n \<Longrightarrow> n < 100 \<Longrightarrow> digits n = [digit (n div 10), digit (n mod 10)]"
  by (subst digits.simps) (simp add: digits_lt10)

lemma format_02d_two_digits:
  assumes "0 \<le> n" "n < 100"
  shows "format_02d n = [digit (nat n div 10), digit (nat n mod 10)]"
proof (cases "nat n < 10")
  case True
  then show ?thesis using assms
    by (simp add: format_02d_def digits_lt10 digit_def)
next
  case False
  then show ?thesis using assms
    by (simp add: format_02d_def digits_lt100)
qed

lemma digit_not_colon: "CHR '':'' \<noteq> digit d"
  by (simp add: digit_def)

lemma digits_no_colon: "CHR '':'' \<notin> set (digits n)"
proof (induction n rule: digits.induct)
  case (1 n)
  show ?case
  proof (cases "n < 10")
    case True
    then show ?thesis by (simp add: digits_lt10 digit_not_colon)
  next
    case False
    with 1 have "CHR '':'' \<notin> set (digits (n div 10))" by simp
    with False show ?thesis
      by (subst digits.simps) (simp add: digit_not_colon)
  qed
qed

lemma str_of_int_no_colon: "CHR '':'' \<notin> set (str_of_int n)"
  by (simp add: str_of_int_def digits_no_colon)

text \<open>
  Claim C9. For every \<open>duration_ms\<close> the displayed duration is the decimal rendering of
  \<open>duration_ms div 60000\<close>, a colon, and the two decimal digits of
  \<open>(duration_ms div 1000) mod 60\<close>; the minutes field holds no colon, so there is no
  hours component; 185000 gives \<^verbatim>\<open>3:05\<close> and 3661000 gives \<^verbatim>\<open>61:01\<close>; from 3600000 on
  the number in the minutes field is at least 60.
\<close>

theorem duration_format:
  "duration ms = str_of_int (ms div 60000) @ '':'' @
       [digit (nat ((ms div 1000) mod 60) div 10), digit (nat ((ms div 1000) mod 60) mod 10)]
   \<and> CHR '':'' \<notin> set (str_of_int (ms div 60000))
   \<and> duration 185000 = ''3:05''
   \<and> duration 3661000 = ''61:01''
   \<and> (3600000 \<le> ms \<longrightarrow> 60 \<le> ms div 60000)"
proof -
  have shape: "duration ms = str_of_int (ms div 60000) @ '':'' @
       [digit (nat ((ms div 1000) mod 60) div 10), digit (nat ((ms div 1000) mod 60) mod 10)]"
    unfolding duration_def by (simp add: format_02d_two_digits)
  have e1: "duration 185000 = ''3:05''"
    by (simp add: duration_def str_of_int_def format_02d_def digits.simps digit_def)
  have e2: "duration 3661000 = ''61:01''"
    by (simp add: duration_def str_of_int_def format_02d_def digits.simps digit_def)
  have long: "3600000 \<le> ms \<longrightarrow> 60 \<le> ms div 60000"
    by (simp add: pos_imp_zdiv_pos_iff zdiv_mono1 order_trans [of 60 "3600000 div 60000"])
  from shape str_of_int_no_colon e1 e2 long show ?thesis by blast
qed

text \<open>
  Witness for C9: one hour, one minute and one second is at least 3600000 ms, and its
  minutes field reads 61.
\<close>

theorem duration_format_witness:
  "(3600000::int) \<le> 3661000
   \<and> (60::int) \<le> 3661000 div 60000
   \<and> duration 3661000 = ''61:01''
   \<and> CHR '':'' \<notin> set (str_of_int (3661000 div 60000))"
  using duration_format [of 3661000]
  by (simp add: str_of_int_def digits.simps digit_def)

section \<open>Where the artifact is stored\<close>

text \<open>
  Claim C2, as amended. The artifact path is \<^verbatim>\<open>downloads/<title>.mp3\<close>: a function of the
  resolved title alone, with no token of the request in it. Two requests get distinct
  paths exactly when their resolved titles read differently, and the same path when
  the titles are the same.
\<close>

theorem artifact_path_by_title:
  "artifact_path title = ''downloads/'' @ py_str title @ ''.mp3''
   \<and> (artifact_path t1 = artifact_path t2) = (py_str t1 = py_str t2)"
  by (simp add: artifact_path_def DOWNLOAD_DIR_def)

text \<open>Witness for C2: the path of the title \<^verbatim>\<open>Song\<close>, and of two requests with that title.\<close>

theorem artifact_path_by_title_witness:
  "artifact_path (PStr ''Song'') = ''downloads/Song.mp3''
   \<and> (artifact_path (PStr ''Song'') = artifact_path (PStr ''Song''))"
  using artifact_path_by_title [of "PStr ''Song''" "PStr ''Song''" "PStr ''Song''"] by simp

text \<open>
  Counterexample to C2 as stated: two requests for different locators, both resolved by
  the engine to the title \<^verbatim>\<open>Song\<close>, send their audio from the same file
  \<^verbatim>\<open>downloads/Song.mp3\<close>.
\<close>

theorem same_title_same_path_counterexample:
  "audios (snd (download_from_youtube base_env (Some ''https://youtu.be/a'') None w0))
     = [(''downloads/Song.mp3'', PStr ''Song'')]
   \<and> audios (snd (download_from_youtube base_env (Some ''https://youtu.be/b'') None w0))
     = [(''downloads/Song.mp3'', PStr ''Song'')]
   \<and> engine_calls (snd (download_from_youtube base_env (Some ''https://youtu.be/a'') None w0))
     \<noteq> engine_calls (snd (download_from_youtube base_env (Some ''https://youtu.be/b'') None w0))"
  by (simp add: io_defs handler_defs w0_def base_env_def song_def)

section \<open>The album-artist tag\<close>





section \<open>The \<^verbatim>\<open>/download\<close> command\<close>

text \<open>
  Claim C8, as amended. The \<^verbatim>\<open>/download\<close> command requires at least one argument and
  reads only the first: with no argument it asks for a URL; with a first argument that
  is not a video-host URL it replies with the validation error; otherwise it enters
  the pipeline with the first argument, whatever arguments follow it.
\<close>

theorem download_command_first_argument:
  "download_command E [] = io_bind (reply_text E ProvideYoutubeUrl) (\<lambda>_. io_return ())
   \<and> (\<not> is_video_link url \<longrightarrow>
        download_command E (url # others)
          = io_bind (reply_text E InvalidYoutubeUrl) (\<lambda>_. io_return ()))
   \<and> (is_video_link url \<longrightarrow>
        download_command E (url # others) = download_from_youtube E (Some url) None)"
  by (simp add: download_command_def)

text \<open>
  Witness for C8: a video URL followed by a second argument enters the pipeline, and a
  first argument that is no video URL gets the validation error.
\<close>

theorem download_command_first_argument_witness:
  "is_video_link ''https://youtu.be/a''
   \<and> download_command base_env [''https://youtu.be/a'', ''junk'']
        = download_from_youtube base_env (Some ''https://youtu.be/a'') None
   \<and> \<not> is_video_link ''hello''
   \<and> messages (snd (download_command base_env [''hello''] w0)) = [InvalidYoutubeUrl]
   \<and> messages (snd (download_command base_env [] w0)) = [ProvideYoutubeUrl]"
proof -
  have v: "is_video_link ''https://youtu.be/a''" by (simp add: is_video_link_def sublist_code)
  have n: "\<not> is_video_link ''hello''" by (simp add: is_video_link_def sublist_code)
  from download_command_first_argument [of base_env "''https://youtu.be/a''" "[''junk'']"] v
  have a: "download_command base_env [''https://youtu.be/a'', ''junk'']
        = download_from_youtube base_env (Some ''https://youtu.be/a'') None" by blast
  from download_command_first_argument [of base_env "''hello''" "[]"] n
  have "download_command base_env [''hello'']
        = io_bind (reply_text base_env InvalidYoutubeUrl) (\<lambda>_. io_return ())"
    and "download_command base_env []
        = io_bind (reply_text base_env ProvideYoutubeUrl) (\<lambda>_. io_return ())" by blast+
  then have b: "messages (snd (download_command base_env [''hello''] w0)) = [InvalidYoutubeUrl]"
    and c: "messages (snd (download_command base_env [] w0)) = [ProvideYoutubeUrl]"
    by (simp_all add: io_defs w0_def base_env_def)
  from v a n b c show ?thesis by blast
qed

text \<open>
  Counterexample to C8 as stated: called with two arguments, the command does what it
  does with the first alone; the engine is asked to download the first argument and
  the only message of the chat is the success notice.
\<close>

theorem download_command_two_arguments_counterexample:
  "download_command base_env [''https://youtu.be/a'', ''junk''] w0
     = download_from_youtube base_env (Some ''https://youtu.be/a'') None w0
   \<and> engine_calls (snd (download_command base_env [''https://youtu.be/a'', ''junk''] w0))
     = [(Some ''https://youtu.be/a'', True)]
   \<and> messages (snd (download_command base_env [''https://youtu.be/a'', ''junk''] w0))
     = [Downloaded (PStr ''Song'')]"
  by (simp add: download_command_def is_video_link_def sublist_code io_defs handler_defs
      w0_def base_env_def song_def)

section \<open>Tag enrichment is best effort\<close>

lemma tag_file_frame: "\<exists>r tags. tag_file E p md w = (r, w\<lparr>saved_tags := tags\<rparr>)"
proof -
  have same: "w = w\<lparr>saved_tags := saved_tags w\<rparr>" by simp
  show ?thesis
    unfolding tag_file_def add_cover_def tag_save_io_def io_bind_def io_lift_def io_raise_def
      io_return_def Let_def
    by (auto split: sum.splits option.splits intro: exI [of _ "saved_tags w"] same)
qed

lemma add_id3_tags_swallows:
  "\<exists>tags lg. add_id3_tags E p md w = (Inr (), w\<lparr>saved_tags := tags, error_log := lg\<rparr>)"
proof -
  obtain r tags where tf: "tag_file E p md w = (r, w\<lparr>saved_tags := tags\<rparr>)"
    using tag_file_frame by blast
  show ?thesis
  proof (cases r)
    case (Inl e)
    with tf have "add_id3_tags E p md w =
        (Inr (), w\<lparr>saved_tags := tags, error_log := error_log w @ [''Error adding ID3 tags: '' @ str_exn e]\<rparr>)"
      by (simp add: add_id3_tags_def io_try_def logger_error_def)
    then show ?thesis by blast
  next
    case (Inr u)
    with tf have "add_id3_tags E p md w = (Inr (), w\<lparr>saved_tags := tags, error_log := error_log w\<rparr>)"
      by (simp add: add_id3_tags_def io_try_def)
    then show ?thesis by blast
  qed
qed

text \<open>
  Claim C3. Whatever is raised while the file is tagged (by loading the file, fetching
  the cover or saving the tag), \<^verbatim>\<open>add_id3_tags\<close> returns normally. So when the download
  has produced the artifact and Telegram accepts the calls, a request with metadata
  ends normally with the status message edited to the success notice, the artifact
  sent under the title of the metadata, and the file removed, however the
  collaborators of the tagging step behave.
\<close>

theorem tagging_errors_are_swallowed:
  assumes eng: "engine E url True = Inr info"
      and ttl: "t = (case info_title info of Some x \<Rightarrow> x | None \<Rightarrow> PStr ''Unknown Title'')"
      and wrt: "artifact_path t \<in> set (written info)"
      and trn: "\<forall>n. transport E n = None"
      and mdt: "map_of md ''title'' = Some mt"
  shows "fst (add_id3_tags E (artifact_path t) md w1) = Inr ()
       \<and> fst (download_from_youtube E url (Some md) w) = Inr ()
       \<and> audios (snd (download_from_youtube E url (Some md) w)) = audios w @ [(artifact_path t, mt)]
       \<and> messages (snd (download_from_youtube E url (Some md) w)) = messages w @ [Downloaded mt]
       \<and> artifact_path t \<notin> files (snd (download_from_youtube E url (Some md) w))"
proof -
  have first: "fst (add_id3_tags E (artifact_path t) md w1) = Inr ()"
    using add_id3_tags_swallows [of E "artifact_path t" md w1] by auto
  define w2 where "w2 = w\<lparr>transport_calls := Suc (transport_calls w),
      messages := messages w @ [Downloading],
      engine_calls := engine_calls w @ [(url, True)],
      history := history w @ [NewText (length (messages w)) Downloading, Extract url True],
      files := files w \<union> set (written info)\<rparr>"
  obtain tags lg where tagged:
    "add_id3_tags E (artifact_path t) md w2 = (Inr (), w2\<lparr>saved_tags := tags, error_log := lg\<rparr>)"
    using add_id3_tags_swallows by blast
  have nonempty: "md \<noteq> []" using mdt by auto
  have run: "download_from_youtube E url (Some md) w =
      (Inr (), w2\<lparr>saved_tags := tags, error_log := lg,
         transport_calls := Suc (Suc (Suc (transport_calls w))),
         messages := messages w @ [Downloaded mt],
         audios := audios w @ [(artifact_path t, mt)],
         history := history w @ [NewText (length (messages w)) Downloading, Extract url True,
           EditText (length (messages w)) (Downloaded mt), NewAudio (artifact_path t) mt],
         files := (files w \<union> set (written info)) - {artifact_path t}\<rparr>)"
    unfolding download_from_youtube_def
    using eng trn wrt nonempty mdt tagged [unfolded w2_def ttl]
    by (simp add: io_bind_def io_try_def io_return_def io_lift_def reply_text_def edit_text_def
        reply_audio_def os_remove_def extract_info_def tag_step_def dict_item_def Let_def
        w2_def ttl)
  from first run show ?thesis by simp
qed

text \<open>
  Witness for C3: in \<open>base_env\<close> the cover cannot be fetched, so tagging raises; the
  artifact is sent all the same and its file is gone.
\<close>

theorem tagging_errors_are_swallowed_witness:
  "fst (tag_file base_env ''downloads/Song.mp3''
      [(''title'', PStr ''T''), (''cover_url'', PStr ''http://i/c.jpg'')] w0) = Inl (Exn ''unreachable'')
   \<and> fst (add_id3_tags base_env ''downloads/Song.mp3''
      [(''title'', PStr ''T''), (''cover_url'', PStr ''http://i/c.jpg'')] w0) = Inr ()
   \<and> audios (snd (download_from_youtube base_env (Some ''https://youtu.be/a'')
        (Some [(''title'', PStr ''T''), (''cover_url'', PStr ''http://i/c.jpg'')]) w0))
      = [(''downloads/Song.mp3'', PStr ''T'')]
   \<and> messages (snd (download_from_youtube base_env (Some ''https://youtu.be/a'')
        (Some [(''title'', PStr ''T''), (''cover_url'', PStr ''http://i/c.jpg'')]) w0))
      = [Downloaded (PStr ''T'')]
   \<and> ''downloads/Song.mp3'' \<notin> files (snd (download_from_youtube base_env (Some ''https://youtu.be/a'')
        (Some [(''title'', PStr ''T''), (''cover_url'', PStr ''http://i/c.jpg'')]) w0))"
proof -
  let ?md = "[(''title'', PStr ''T''), (''cover_url'', PStr ''http://i/c.jpg'')]"
  have raised: "fst (tag_file base_env ''downloads/Song.mp3'' ?md w0) = Inl (Exn ''unreachable'')"
    by (simp add: io_defs handler_defs w0_def base_env_def)
  have eng: "engine base_env (Some ''https://youtu.be/a'') True = Inr song"
    by (simp add: base_env_def)
  have ttl: "PStr ''Song'' = (case info_title song of Some x \<Rightarrow> x | None \<Rightarrow> PStr ''Unknown Title'')"
    by (simp add: song_def)
  have wrt: "artifact_path (PStr ''Song'') \<in> set (written song)"
    by (simp add: song_def artifact_path_def DOWNLOAD_DIR_def)
  have trn: "\<forall>n. transport base_env n = None"
    by (simp add: base_env_def)
  have mdt: "map_of ?md ''title'' = Some (PStr ''T'')"
    by simp
  have path: "artifact_path (PStr ''Song'') = ''downloads/Song.mp3''"
    by (simp add: artifact_path_def DOWNLOAD_DIR_def)
  from tagging_errors_are_swallowed [OF eng ttl wrt trn mdt, of w0 w0] raised
  show ?thesis unfolding path w0_def by simp
qed

section \<open>Cleanup of the artifact\<close>

text \<open>
  Claim C1 at a failing input. The download produces \<^verbatim>\<open>downloads/Song.mp3\<close>, the status
  message is edited, and the sending of the audio attachment fails. The handler of
  \<^verbatim>\<open>download_from_youtube\<close> logs the error and edits the status message; the request
  ends there, and the file is still in local storage: \<^verbatim>\<open>os.remove\<close> stands after the
  sending inside the \<^verbatim>\<open>try\<close> and is skipped.
\<close>

theorem send_failure_leaves_artifact:
  "fst (download_from_youtube send_fails_env (Some ''https://youtu.be/a'') None w0) = Inr ()
   \<and> files (snd (download_from_youtube send_fails_env (Some ''https://youtu.be/a'') None w0))
       = {''downloads/Song.mp3''}
   \<and> audios (snd (download_from_youtube send_fails_env (Some ''https://youtu.be/a'') None w0)) = []
   \<and> messages (snd (download_from_youtube send_fails_env (Some ''https://youtu.be/a'') None w0))
       = [ErrorDownloadingAudio ''timed out'']"
  by (simp add: io_defs handler_defs w0_def base_env_def send_fails_env_def song_def)

section \<open>A search without result\<close>

text \<open>
  Claim C4. When the search for the query returns no entry (an empty list, or no list),
  \<^verbatim>\<open>search_and_download_from_youtube\<close> makes the one search call to the engine, with
  \<^verbatim>\<open>download=False\<close>, and no other: nothing is downloaded, no file is created and no
  audio is sent. When Telegram accepts the reply, the user gets the notice that no
  matching track was found.
\<close>

theorem empty_search_stops_request:
  assumes srch: "engine E (Some (''ytsearch:'' @ query)) False = Inr info"
      and none: "info_entries info = None \<or> info_entries info = Some []"
  shows "engine_calls (snd (search_and_download_from_youtube E query md w))
           = engine_calls w @ [(Some (''ytsearch:'' @ query), False)]
       \<and> files (snd (search_and_download_from_youtube E query md w)) = files w
       \<and> audios (snd (search_and_download_from_youtube E query md w)) = audios w
       \<and> (transport E (transport_calls w) = None \<longrightarrow>
            fst (search_and_download_from_youtube E query md w) = Inr ()
          \<and> messages (snd (search_and_download_from_youtube E query md w))
              = messages w @ [NoMatchingTracks])"
  using srch none
  by (auto simp: search_and_download_from_youtube_def io_bind_def io_try_def io_return_def
      reply_text_def extract_info_def logger_error_def Let_def split: option.splits)

text \<open>
  Witness for C4: in \<open>nothing_found_env\<close> the search for \<^verbatim>\<open>T A audio\<close> returns an empty
  list; the engine is called once, storage stays empty and the chat gets the notice.
\<close>

theorem empty_search_stops_request_witness:
  "engine_calls (snd (search_and_download_from_youtube nothing_found_env ''T A audio'' None w0))
      = [(Some ''ytsearch:T A audio'', False)]
   \<and> files (snd (search_and_download_from_youtube nothing_found_env ''T A audio'' None w0)) = {}
   \<and> audios (snd (search_and_download_from_youtube nothing_found_env ''T A audio'' None w0)) = []
   \<and> fst (search_and_download_from_youtube nothing_found_env ''T A audio'' None w0) = Inr ()
   \<and> messages (snd (search_and_download_from_youtube nothing_found_env ''T A audio'' None w0))
      = [NoMatchingTracks]"
proof -
  let ?info = "\<lparr>info_title = None, info_entries = Some [], written = []\<rparr>"
  have srch: "engine nothing_found_env (Some (''ytsearch:'' @ ''T A audio'')) False = Inr ?info"
    by (simp add: nothing_found_env_def base_env_def)
  have none: "info_entries ?info = None \<or> info_entries ?info = Some []"
    by simp
  have trn: "transport nothing_found_env (transport_calls w0) = None"
    by (simp add: nothing_found_env_def base_env_def)
  from empty_search_stops_request [OF srch none, of None w0] trn
  show ?thesis by (simp add: w0_def)
qed

section \<open>The status message\<close>

lemma tag_step_frame:
  "\<exists>r tags lg. tag_step E p t md w = (r, w\<lparr>saved_tags := tags, error_log := lg\<rparr>)"
proof -
  have same: "w = w\<lparr>saved_tags := saved_tags w, error_log := error_log w\<rparr>" by simp
  show ?thesis
  proof (cases "md = None \<or> md = Some []")
    case True
    then have "tag_step E p t md w = (Inr t, w)"
      by (auto simp: tag_step_def io_return_def)
    with same show ?thesis by metis
  next
    case False
    then obtain d where d: "md = Some d" "d \<noteq> []" by auto
    obtain tags lg where "add_id3_tags E p d w = (Inr (), w\<lparr>saved_tags := tags, error_log := lg\<rparr>)"
      using add_id3_tags_swallows by blast
    with d have "tag_step E p t md w = (dict_item d ''title'', w\<lparr>saved_tags := tags, error_log := lg\<rparr>)"
      by (simp add: tag_step_def io_bind_def io_lift_def)
    then show ?thesis by blast
  qed
qed

lemmas run_defs = download_from_youtube_def io_bind_def io_try_def reply_text_def edit_text_def
  extract_info_def logger_error_def reply_audio_def os_remove_def Let_def

lemma creation_refused:
  assumes "transport E (transport_calls w) = Some e"
  shows "download_from_youtube E url md w = (Inl e, w\<lparr>transport_calls := Suc (transport_calls w)\<rparr>)"
  using assms by (simp add: run_defs)

lemma download_runs:
  assumes acc: "transport E (transport_calls w) = None"
  shows "\<exists>rest n.
      history (snd (download_from_youtube E url md w))
        = history w @ NewText (length (messages w)) Downloading # Extract url True # rest
    \<and> messages (snd (download_from_youtube E url md w)) = messages w @ [n]
    \<and> ((rest = [] \<and> n = Downloading \<and> transport E (Suc (transport_calls w)) \<noteq> None)
       \<or> (\<exists>m. rest = [EditText (length (messages w)) (ErrorDownloadingAudio m)]
              \<and> n = ErrorDownloadingAudio m)
       \<or> (\<exists>t. rest = [EditText (length (messages w)) (Downloaded t)] \<and> n = Downloaded t
              \<and> transport E (Suc (transport_calls w)) = None)
       \<or> (\<exists>t m. rest = [EditText (length (messages w)) (Downloaded t),
                         EditText (length (messages w)) (ErrorDownloadingAudio m)]
              \<and> n = ErrorDownloadingAudio m)
       \<or> (\<exists>t p. rest = [EditText (length (messages w)) (Downloaded t), NewAudio p t]
              \<and> n = Downloaded t))"
    (is "\<exists>rest n. ?H rest \<and> ?M n \<and> ?shape rest n")
proof -
  let ?h = "length (messages w)"
  let ?c = "transport_calls w"
  have failed: "\<exists>rest n. ?H rest \<and> ?M n \<and> ?shape rest n"
    if run: "\<And>x. transport E (Suc ?c) = x \<Longrightarrow>
       (x = None \<longrightarrow> history (snd (download_from_youtube E url md w))
            = history w @ [NewText ?h Downloading, Extract url True, EditText ?h (ErrorDownloadingAudio m)]
          \<and> messages (snd (download_from_youtube E url md w)) = messages w @ [ErrorDownloadingAudio m])
     \<and> (x \<noteq> None \<longrightarrow> history (snd (download_from_youtube E url md w))
            = history w @ [NewText ?h Downloading, Extract url True]
          \<and> messages (snd (download_from_youtube E url md w)) = messages w @ [Downloading])" for m
  proof (cases "transport E (Suc ?c)")
    case None
    with run [of None] have "?H [EditText ?h (ErrorDownloadingAudio m)]" "?M (ErrorDownloadingAudio m)"
      by simp_all
    then show ?thesis by blast
  next
    case (Some e)
    with run [of "Some e"] have "?H []" "?M Downloading" by simp_all
    with Some show ?thesis by blast
  qed
  show ?thesis
  proof (cases "engine E url True")
    case (Inl e)
    show ?thesis
      by (rule failed [of "str_exn e"]) (use acc Inl in \<open>auto simp: run_defs\<close>)
  next
    case (Inr info)
    define t where "t = (case info_title info of Some x \<Rightarrow> x | None \<Rightarrow> PStr ''Unknown Title'')"
    define w2 where "w2 = w\<lparr>transport_calls := Suc (transport_calls w),
      messages := messages w @ [Downloading],
      engine_calls := engine_calls w @ [(url, True)],
      history := history w @ [NewText (length (messages w)) Downloading, Extract url True],
      files := files w \<union> set (written info)\<rparr>"
    obtain r tags lg where step:
      "tag_step E (artifact_path t) t md w2 = (r, w2\<lparr>saved_tags := tags, error_log := lg\<rparr>)"
      using tag_step_frame by blast
    note st = step [unfolded w2_def t_def]
    show ?thesis
    proof (cases r)
      case (Inl e)
      show ?thesis
        by (rule failed [of "str_exn e"]) (use acc Inr Inl st in \<open>auto simp: run_defs\<close>)
    next
      case title: (Inr t')
      let ?R = "download_from_youtube E url md w"
      let ?dl = "EditText ?h (Downloaded t')"
      have facts: "transport E ?c = None" "engine E url True = Inr info"
        "tag_step E (artifact_path (case info_title info of None \<Rightarrow> PStr ''Unknown Title'' | Some x \<Rightarrow> x))
           (case info_title info of None \<Rightarrow> PStr ''Unknown Title'' | Some x \<Rightarrow> x) md
           (w\<lparr>transport_calls := Suc (transport_calls w),
              messages := messages w @ [Downloading],
              engine_calls := engine_calls w @ [(url, True)],
              history := history w @ [NewText (length (messages w)) Downloading, Extract url True],
              files := files w \<union> set (written info)\<rparr>)
         = (Inr t', w\<lparr>transport_calls := Suc (transport_calls w),
              messages := messages w @ [Downloading],
              engine_calls := engine_calls w @ [(url, True)],
              history := history w @ [NewText (length (messages w)) Downloading, Extract url True],
              files := files w \<union> set (written info),
              saved_tags := tags, error_log := lg\<rparr>)"
        using acc Inr st title by simp_all
      show ?thesis
      proof (cases "transport E (Suc ?c)")
        case first: (Some e1)
        show ?thesis
        proof (cases "transport E (Suc (Suc ?c))")
          case None
          with first facts have "?H [EditText ?h (ErrorDownloadingAudio (str_exn e1))]"
            "?M (ErrorDownloadingAudio (str_exn e1))"
            by (simp_all add: run_defs)
          then show ?thesis by blast
        next
          case (Some e2)
          with first facts have "?H []" "?M Downloading"
            by (simp_all add: run_defs)
          with first show ?thesis by blast
        qed
      next
        case first: None
        show ?thesis
        proof (cases "artifact_path t \<in> files w \<union> set (written info)")
          case False
          show ?thesis
          proof (cases "transport E (Suc (Suc ?c))")
            case None
            with first facts False
            have "?H [?dl, EditText ?h (ErrorDownloadingAudio ''No such file or directory'')]"
              "?M (ErrorDownloadingAudio ''No such file or directory'')"
              by (simp_all add: run_defs t_def)
            then show ?thesis by blast
          next
            case (Some e2)
            with first facts False have "?H [?dl]" "?M (Downloaded t')"
              by (simp_all add: run_defs t_def)
            with first show ?thesis by blast
          qed
        next
          case True
          show ?thesis
          proof (cases "transport E (Suc (Suc ?c))")
            case None
            with first facts True have "?H [?dl, NewAudio (artifact_path t) t']" "?M (Downloaded t')"
              by (simp_all add: run_defs t_def)
            then show ?thesis by blast
          next
            case second: (Some e2)
            show ?thesis
            proof (cases "transport E (Suc (Suc (Suc ?c)))")
              case None
              with first second facts True
              have "?H [?dl, EditText ?h (ErrorDownloadingAudio (str_exn e2))]"
                "?M (ErrorDownloadingAudio (str_exn e2))"
                by (simp_all add: run_defs t_def)
              then show ?thesis by blast
            next
              case (Some e3)
              with first second facts True have "?H [?dl]" "?M (Downloaded t')"
                by (simp_all add: run_defs t_def)
              with first show ?thesis by blast
            qed
          qed
        qed
      qed
    qed
  qed
qed

text \<open>
  Claim C6, as amended. For every run of \<^verbatim>\<open>download_from_youtube\<close>, the whole of a direct
  video request. When Telegram refuses the creation of the status message, no message
  is created and nothing else is done. Otherwise the first operation of the run
  creates the status message with the in-progress text, before the engine is called,
  and it is the only text message the run creates: every later operation on the chat
  is an edit of that same message that writes the outcome (the success notice or the
  error notice of the download), or the sending of the audio. At the end the status
  message reads an in-progress text exactly when Telegram has refused every edit of
  it; when Telegram accepts the first edit it reads the outcome.
\<close>

theorem download_status_message:
  "(transport E (transport_calls w) \<noteq> None \<longrightarrow>
      history (snd (download_from_youtube E url md w)) = history w
    \<and> messages (snd (download_from_youtube E url md w)) = messages w)
   \<and> (transport E (transport_calls w) = None \<longrightarrow>
      (\<exists>rest n.
          history (snd (download_from_youtube E url md w))
            = history w @ NewText (length (messages w)) Downloading # Extract url True # rest
        \<and> (\<forall>ev\<in>set rest. outcome_edit (length (messages w)) ev \<or> audio_sent ev)
        \<and> messages (snd (download_from_youtube E url md w)) = messages w @ [n]
        \<and> (in_progress n \<longleftrightarrow> \<not> (\<exists>ev\<in>set rest. outcome_edit (length (messages w)) ev))
        \<and> (transport E (Suc (transport_calls w)) = None \<longrightarrow> outcome n \<and> \<not> in_progress n)))"
proof (intro conjI impI)
  assume "transport E (transport_calls w) \<noteq> None"
  then obtain e where "transport E (transport_calls w) = Some e" by blast
  from creation_refused [OF this, of url md]
  show "history (snd (download_from_youtube E url md w)) = history w"
    and "messages (snd (download_from_youtube E url md w)) = messages w"
    by simp_all
next
  let ?h = "length (messages w)"
  let ?good = "\<lambda>rest n.
        (\<forall>ev\<in>set rest. outcome_edit ?h ev \<or> audio_sent ev)
      \<and> (in_progress n \<longleftrightarrow> \<not> (\<exists>ev\<in>set rest. outcome_edit ?h ev))
      \<and> (transport E (Suc (transport_calls w)) = None \<longrightarrow> outcome n \<and> \<not> in_progress n)"
  assume "transport E (transport_calls w) = None"
  from download_runs [OF this, of url md] obtain rest n where
    hist: "history (snd (download_from_youtube E url md w))
            = history w @ NewText ?h Downloading # Extract url True # rest"
    and msgs: "messages (snd (download_from_youtube E url md w)) = messages w @ [n]"
    and shape: "(rest = [] \<and> n = Downloading \<and> transport E (Suc (transport_calls w)) \<noteq> None)
       \<or> (\<exists>m. rest = [EditText ?h (ErrorDownloadingAudio m)] \<and> n = ErrorDownloadingAudio m)
       \<or> (\<exists>t. rest = [EditText ?h (Downloaded t)] \<and> n = Downloaded t
              \<and> transport E (Suc (transport_calls w)) = None)
       \<or> (\<exists>t m. rest = [EditText ?h (Downloaded t), EditText ?h (ErrorDownloadingAudio m)]
              \<and> n = ErrorDownloadingAudio m)
       \<or> (\<exists>t p. rest = [EditText ?h (Downloaded t), NewAudio p t] \<and> n = Downloaded t)"
    by blast
  from shape have "?good rest n"
    by (elim disjE exE conjE) simp_all
  then have only: "\<forall>ev\<in>set rest. outcome_edit ?h ev \<or> audio_sent ev"
    and stale: "in_progress n \<longleftrightarrow> \<not> (\<exists>ev\<in>set rest. outcome_edit ?h ev)"
    and fresh: "transport E (Suc (transport_calls w)) = None \<longrightarrow> outcome n \<and> \<not> in_progress n"
    by blast+
  show "\<exists>rest n.
          history (snd (download_from_youtube E url md w))
            = history w @ NewText ?h Downloading # Extract url True # rest
        \<and> (\<forall>ev\<in>set rest. outcome_edit ?h ev \<or> audio_sent ev)
        \<and> messages (snd (download_from_youtube E url md w)) = messages w @ [n]
        \<and> (in_progress n \<longleftrightarrow> \<not> (\<exists>ev\<in>set rest. outcome_edit ?h ev))
        \<and> (transport E (Suc (transport_calls w)) = None \<longrightarrow> outcome n \<and> \<not> in_progress n)"
  proof (intro exI conjI)
    show "history (snd (download_from_youtube E url md w))
            = history w @ NewText ?h Downloading # Extract url True # rest" by (rule hist)
    show "\<forall>ev\<in>set rest. outcome_edit ?h ev \<or> audio_sent ev" by (rule only)
    show "messages (snd (download_from_youtube E url md w)) = messages w @ [n]" by (rule msgs)
    show "in_progress n \<longleftrightarrow> \<not> (\<exists>ev\<in>set rest. outcome_edit ?h ev)" by (rule stale)
    show "transport E (Suc (transport_calls w)) = None \<longrightarrow> outcome n \<and> \<not> in_progress n"
      by (rule fresh)
  qed
qed

text \<open>
  Witness for C6. In \<open>send_fails_env\<close> Telegram accepts the creation and the first edit
  and refuses the audio: the run starts with the creation of the status message and
  the call of the engine, no audio is sent, and the status message ends on an
  outcome. In \<open>refusing_env\<close> Telegram refuses the creation, and the chat stays empty.
\<close>

theorem download_status_message_witness:
  "take 2 (history (snd (download_from_youtube send_fails_env (Some ''https://youtu.be/a'') None w0)))
      = [NewText 0 Downloading, Extract (Some ''https://youtu.be/a'') True]
   \<and> outcome (last (messages
        (snd (download_from_youtube send_fails_env (Some ''https://youtu.be/a'') None w0))))
   \<and> length (messages
        (snd (download_from_youtube send_fails_env (Some ''https://youtu.be/a'') None w0))) = 1
   \<and> audios (snd (download_from_youtube send_fails_env (Some ''https://youtu.be/a'') None w0)) = []
   \<and> history (snd (download_from_youtube refusing_env (Some ''https://youtu.be/a'') None w0)) = []
   \<and> messages (snd (download_from_youtube refusing_env (Some ''https://youtu.be/a'') None w0)) = []"
proof -
  let ?url = "Some ''https://youtu.be/a''"
  have start: "transport_calls w0 = 0" "messages w0 = []" "history w0 = []"
    by (simp_all add: w0_def)
  have t0: "transport send_fails_env (transport_calls w0) = None"
    and t1: "transport send_fails_env (Suc (transport_calls w0)) = None"
    by (simp_all add: send_fails_env_def base_env_def start)
  from download_status_message [of send_fails_env w0 ?url None] t0 t1
  obtain rest n where
    "history (snd (download_from_youtube send_fails_env ?url None w0))
       = history w0 @ NewText (length (messages w0)) Downloading # Extract ?url True # rest"
    "messages (snd (download_from_youtube send_fails_env ?url None w0)) = messages w0 @ [n]"
    "outcome n"
    by blast
  then have a: "take 2 (history (snd (download_from_youtube send_fails_env ?url None w0)))
        = [NewText 0 Downloading, Extract ?url True]"
    and b: "outcome (last (messages (snd (download_from_youtube send_fails_env ?url None w0))))"
    and c: "length (messages (snd (download_from_youtube send_fails_env ?url None w0))) = 1"
    by (simp_all add: start)
  have d: "audios (snd (download_from_youtube send_fails_env ?url None w0)) = []"
    by (simp add: io_defs handler_defs w0_def base_env_def send_fails_env_def song_def)
  have r0: "transport refusing_env (transport_calls w0) \<noteq> None"
    by (simp add: refusing_env_def base_env_def)
  from download_status_message [of refusing_env w0 ?url None] r0
  have e: "history (snd (download_from_youtube refusing_env ?url None w0)) = []"
    and f: "messages (snd (download_from_youtube refusing_env ?url None w0)) = []"
    by (simp_all add: start)
  from a b c d e f show ?thesis by blast
qed

lemma catalog_env_simps:
  "transport catalog_env n = None"
  "engine catalog_env l True = Inr song"
  "engine catalog_env l False = Inr found"
  "catalog catalog_env i = Inr track0"
  "eyed3_load catalog_env p = Inr (Some \<lparr>af_tag = None\<rparr>)"
  "http_get catalog_env u = Inl (Exn ''unreachable'')"
  "tag_save catalog_env p = None"
  by (simp_all add: catalog_env_def base_env_def)

lemma catalog_scenario:
  "track_id_of ''https://open.spotify.com/track/abc?si=1'' = Inr ''abc''"
  "year_of catalog_env ''2021-05-14'' = Inr (Some 2021)"
  "duration 185000 = ''3:05''"
proof -
  show "track_id_of ''https://open.spotify.com/track/abc?si=1'' = Inr ''abc''"
    by (simp add: track_id_of_def str_split_def py_index_def)
  show "year_of catalog_env ''2021-05-14'' = Inr (Some 2021)"
    by (simp add: year_of_def sublist_code str_split_def py_index_def catalog_env_def base_env_def)
  show "duration 185000 = ''3:05''"
    by (simp add: duration_def str_of_int_def format_02d_def digits.simps digit_def)
qed

text \<open>
  Counterexample to C6 as stated: a catalog request that succeeds. \<^verbatim>\<open>get_spotify_info\<close>
  creates a status message, sends the track information as a photo, and hands over to
  \<^verbatim>\<open>download_from_youtube\<close>, which creates a second status message. When the audio has
  been sent the chat holds both, and the first still reads the in-progress text.
\<close>

theorem catalog_request_two_status_messages_counterexample:
  "fst (get_spotify_info catalog_env ''https://open.spotify.com/track/abc?si=1'' w0) = Inr ()
   \<and> messages (snd (get_spotify_info catalog_env ''https://open.spotify.com/track/abc?si=1'' w0))
       = [FetchingInfo, Downloaded (PStr ''T'')]
   \<and> in_progress
        (messages (snd (get_spotify_info catalog_env ''https://open.spotify.com/track/abc?si=1'' w0)) ! 0)
   \<and> audios (snd (get_spotify_info catalog_env ''https://open.spotify.com/track/abc?si=1'' w0))
       = [(''downloads/Song.mp3'', PStr ''T'')]
   \<and> history (snd (get_spotify_info catalog_env ''https://open.spotify.com/track/abc?si=1'' w0))
       = [NewText 0 FetchingInfo,
          NewPhoto ''http://i/c.jpg'' (InfoMessage ''T'' ''A, B'' ''L'' ''2021-05-14'' ''3:05''),
          Extract (Some ''ytsearch:T A, B audio'') False,
          NewText 1 Downloading,
          Extract (Some ''https://youtu.be/x'') True,
          EditText 1 (Downloaded (PStr ''T'')),
          NewAudio ''downloads/Song.mp3'' (PStr ''T'')]"
  unfolding get_spotify_info_def search_and_download_from_youtube_def
  by (simp add: catalog_scenario catalog_env_simps sublist_code io_defs handler_defs
      make_metadata_def w0_def song_def found_def track0_def)

section \<open>Links in a text message\<close>

lemma words_from_run:
  "\<forall>c\<in>set m. \<not> isspace c \<Longrightarrow> words_from acc (m @ ss) = words_from (rev m @ acc) ss"
  by (induction m arbitrary: acc) simp_all

lemma words_from_pending:
  "acc \<noteq> [] \<Longrightarrow> \<exists>w\<in>set (words_from acc s). prefix (rev acc) w"
proof (induction s arbitrary: acc)
  case Nil
  then show ?case by simp
next
  case (Cons c cs)
  show ?case
  proof (cases "isspace c")
    case True
    with Cons.prems show ?thesis by simp
  next
    case False
    from Cons.IH [of "c # acc"] obtain w where "w \<in> set (words_from (c # acc) cs)"
      "prefix (rev acc @ [c]) w" by auto
    then have "w \<in> set (words_from (c # acc) cs) \<and> prefix (rev acc) w"
      using append_prefixD by blast
    with False show ?thesis by auto
  qed
qed

lemma words_from_keeps:
  assumes "\<forall>c\<in>set m. \<not> isspace c" "m \<noteq> []"
  shows "\<exists>w\<in>set (words_from acc (ps @ m @ ss)). sublist m w"
proof (induction ps arbitrary: acc)
  case Nil
  from assms(2) have "rev m @ acc \<noteq> []" by simp
  from words_from_pending [OF this, of ss] obtain w where
    w: "w \<in> set (words_from (rev m @ acc) ss)" "prefix (rev acc @ m) w" by auto
  from w(2) obtain zs where "w = rev acc @ m @ zs" by (auto simp: prefix_def)
  then have "sublist m w" unfolding sublist_def by blast
  with w(1) show ?case by (auto simp: words_from_run [OF assms(1)])
next
  case (Cons p ps)
  from Cons [of "[]"] Cons [of "p # acc"] show ?case by auto
qed

text \<open>A part of a text that holds no whitespace lies within one of its words.\<close>

lemma sublist_in_some_word:
  assumes "sublist m s" "\<forall>c\<in>set m. \<not> isspace c" "m \<noteq> []"
  shows "\<exists>w\<in>set (str_words s). sublist m w"
proof -
  from assms(1) obtain ps ss where "s = ps @ m @ ss" by (auto simp: sublist_def)
  with words_from_keeps [OF assms(2,3)] show ?thesis by (simp add: str_words_def)
qed

lemma video_link_word:
  assumes "is_video_link s"
  shows "\<exists>w\<in>set (str_words s). is_video_link w"
proof -
  have a: "\<forall>c\<in>set ''youtube.com''. \<not> isspace c" by (simp add: isspace_def)
  have b: "\<forall>c\<in>set ''youtu.be''. \<not> isspace c" by (simp add: isspace_def)
  from assms consider "sublist ''youtube.com'' s" | "sublist ''youtu.be'' s"
    unfolding is_video_link_def by blast
  then show ?thesis
  proof cases
    case 1
    from sublist_in_some_word [OF 1 a] show ?thesis unfolding is_video_link_def by blast
  next
    case 2
    from sublist_in_some_word [OF 2 b] show ?thesis unfolding is_video_link_def by blast
  qed
qed

lemma track_link_word:
  assumes "is_track_link s"
  shows "\<exists>w\<in>set (str_words s). is_track_link w"
proof -
  have a: "\<forall>c\<in>set ''spotify.com/track''. \<not> isspace c" by (simp add: isspace_def)
  from assms have "sublist ''spotify.com/track'' s" unfolding is_track_link_def .
  from sublist_in_some_word [OF this a] show ?thesis unfolding is_track_link_def by blast
qed

lemma first_word:
  assumes "\<exists>w\<in>set ws. P w"
  shows "\<exists>i<length ws. find P ws = Some (ws ! i) \<and> P (ws ! i) \<and> (\<forall>j<i. \<not> P (ws ! j))"
proof -
  from assms have "find P ws \<noteq> None" by (auto simp: find_None_iff)
  then obtain x where x: "find P ws = Some x" by blast
  then obtain i where "i < length ws" "P (ws ! i)" "x = ws ! i" "\<forall>j<i. \<not> P (ws ! j)"
    unfolding find_Some_iff by blast
  with x show ?thesis by blast
qed

text \<open>
  Claim C5, as amended. A text that contains a video-host substring is dispatched to
  the download, on its first word (in the order of the text) that contains a
  video-host substring, also when a word with the catalog track path stands before
  it. A text without video-host substring that contains the catalog track path is
  dispatched to the catalog flow, on its first word that contains the track path. In
  both cases there is such a word. A text with neither gets the usage hint.
\<close>

theorem handle_message_dispatch:
  "(is_video_link text \<longrightarrow>
      (\<exists>i<length (str_words text). is_video_link (str_words text ! i)
         \<and> (\<forall>j<i. \<not> is_video_link (str_words text ! j))
         \<and> handle_message E text = download_from_youtube E (Some (str_words text ! i)) None))
   \<and> (\<not> is_video_link text \<and> is_track_link text \<longrightarrow>
      (\<exists>i<length (str_words text). is_track_link (str_words text ! i)
         \<and> (\<forall>j<i. \<not> is_track_link (str_words text ! j))
         \<and> handle_message E text = get_spotify_info E (str_words text ! i)))
   \<and> (\<not> is_video_link text \<and> \<not> is_track_link text \<longrightarrow>
      handle_message E text = io_bind (reply_text E UsageHint) (\<lambda>_. io_return ()))"
proof (intro conjI impI)
  assume v: "is_video_link text"
  from first_word [OF video_link_word [OF v]] obtain i where
    i: "i < length (str_words text)" "find is_video_link (str_words text) = Some (str_words text ! i)"
       "is_video_link (str_words text ! i)" "\<forall>j<i. \<not> is_video_link (str_words text ! j)"
    by blast
  from v i(2) have "handle_message E text = download_from_youtube E (Some (str_words text ! i)) None"
    by (simp add: handle_message_def)
  with i show "\<exists>i<length (str_words text). is_video_link (str_words text ! i)
         \<and> (\<forall>j<i. \<not> is_video_link (str_words text ! j))
         \<and> handle_message E text = download_from_youtube E (Some (str_words text ! i)) None"
    by blast
next
  assume "\<not> is_video_link text \<and> is_track_link text"
  then have nv: "\<not> is_video_link text" and t: "is_track_link text" by simp_all
  from first_word [OF track_link_word [OF t]] obtain i where
    i: "i < length (str_words text)" "find is_track_link (str_words text) = Some (str_words text ! i)"
       "is_track_link (str_words text ! i)" "\<forall>j<i. \<not> is_track_link (str_words text ! j)"
    by blast
  from nv t i(2) have "handle_message E text = get_spotify_info E (str_words text ! i)"
    by (simp add: handle_message_def)
  with i show "\<exists>i<length (str_words text). is_track_link (str_words text ! i)
         \<and> (\<forall>j<i. \<not> is_track_link (str_words text ! j))
         \<and> handle_message E text = get_spotify_info E (str_words text ! i)"
    by blast
next
  assume "\<not> is_video_link text \<and> \<not> is_track_link text"
  then show "handle_message E text = io_bind (reply_text E UsageHint) (\<lambda>_. io_return ())"
    by (simp add: handle_message_def)
qed

lemma two_links_scenario:
  "str_words ''open.spotify.com/track/1 youtu.be/x'' = [''open.spotify.com/track/1'', ''youtu.be/x'']"
  "is_track_link ''open.spotify.com/track/1''"
  "is_video_link ''open.spotify.com/track/1 youtu.be/x''"
  "\<not> is_video_link ''open.spotify.com/track/1''"
  "is_video_link ''youtu.be/x''"
  by (simp_all add: str_words_def isspace_def is_track_link_def is_video_link_def sublist_code)

text \<open>
  Witness for C5: in the text \<^verbatim>\<open>open.spotify.com/track/1 youtu.be/x\<close> the second word is
  the first with a video-host substring, and the download runs on it; the text
  \<^verbatim>\<open>open.spotify.com/track/1\<close> goes to the catalog flow; \<^verbatim>\<open>hello\<close> gets the usage hint.
\<close>

theorem handle_message_dispatch_witness:
  "handle_message base_env ''open.spotify.com/track/1 youtu.be/x'' w0
      = download_from_youtube base_env (Some ''youtu.be/x'') None w0
   \<and> handle_message base_env ''open.spotify.com/track/1'' w0
      = get_spotify_info base_env ''open.spotify.com/track/1'' w0
   \<and> messages (snd (handle_message base_env ''hello'' w0)) = [UsageHint]"
proof -
  let ?two = "''open.spotify.com/track/1 youtu.be/x''"
  let ?one = "''open.spotify.com/track/1''"
  from handle_message_dispatch [of ?two base_env] two_links_scenario(3)
  obtain i where i: "i < length (str_words ?two)" "is_video_link (str_words ?two ! i)"
    "handle_message base_env ?two = download_from_youtube base_env (Some (str_words ?two ! i)) None"
    by blast
  from i(1) have "i = 0 \<or> i = 1" unfolding two_links_scenario(1) by auto
  with i(2) two_links_scenario(4) have "i = 1" unfolding two_links_scenario(1) by auto
  with i(3) have first: "handle_message base_env ?two w0
      = download_from_youtube base_env (Some ''youtu.be/x'') None w0"
    unfolding two_links_scenario(1) by simp
  have one_word: "str_words ?one = [?one]"
    by (simp add: str_words_def isspace_def)
  from handle_message_dispatch [of ?one base_env] two_links_scenario(2,4)
  obtain k where k: "k < length (str_words ?one)"
    "handle_message base_env ?one = get_spotify_info base_env (str_words ?one ! k)"
    unfolding is_track_link_def by blast
  from k(1) have "k = 0" unfolding one_word by simp
  with k(2) have second: "handle_message base_env ?one w0 = get_spotify_info base_env ?one w0"
    unfolding one_word by simp
  have "\<not> is_video_link ''hello''" "\<not> is_track_link ''hello''"
    by (simp_all add: is_video_link_def is_track_link_def sublist_code)
  with handle_message_dispatch [of "''hello''" base_env]
  have "handle_message base_env ''hello'' = io_bind (reply_text base_env UsageHint) (\<lambda>_. io_return ())"
    by blast
  then have third: "messages (snd (handle_message base_env ''hello'' w0)) = [UsageHint]"
    by (simp add: io_defs w0_def base_env_def)
  from first second third show ?thesis by blast
qed

text \<open>
  Counterexample to C5 as stated: in \<^verbatim>\<open>open.spotify.com/track/1 youtu.be/x\<close> the first
  word holds the catalog track path and stands before the video link, yet the handler
  acts on the video link: it does what the download of \<^verbatim>\<open>youtu.be/x\<close> does, which is
  not what the catalog flow on the first word does.
\<close>

theorem handle_message_order_counterexample:
  "str_words ''open.spotify.com/track/1 youtu.be/x'' = [''open.spotify.com/track/1'', ''youtu.be/x'']
   \<and> is_track_link ''open.spotify.com/track/1''
   \<and> handle_message base_env ''open.spotify.com/track/1 youtu.be/x'' w0
        = download_from_youtube base_env (Some ''youtu.be/x'') None w0
   \<and> handle_message base_env ''open.spotify.com/track/1 youtu.be/x'' w0
        \<noteq> get_spotify_info base_env ''open.spotify.com/track/1'' w0"
proof -
  have hm: "handle_message base_env ''open.spotify.com/track/1 youtu.be/x'' w0
        = download_from_youtube base_env (Some ''youtu.be/x'') None w0"
    unfolding handle_message_def two_links_scenario(1) using two_links_scenario(3,4,5) by simp
  have d: "messages (snd (download_from_youtube base_env (Some ''youtu.be/x'') None w0))
      = [Downloaded (PStr ''Song'')]"
    by (simp add: io_defs handler_defs w0_def base_env_def song_def)
  have tid: "track_id_of ''open.spotify.com/track/1'' = Inr ''1''"
    by (simp add: track_id_of_def str_split_def py_index_def)
  have g: "messages (snd (get_spotify_info base_env ''open.spotify.com/track/1'' w0))
      = [ErrorFetchingInfo ''not found'']"
    unfolding get_spotify_info_def using tid
    by (simp add: io_defs w0_def base_env_def sublist_code)
  from d g have "download_from_youtube base_env (Some ''youtu.be/x'') None w0
      \<noteq> get_spotify_info base_env ''open.spotify.com/track/1'' w0"
    by auto
  with two_links_scenario(1,2) hm show ?thesis by simp
qed

end
